theory Spec2Isabelle
  imports Main "HOL-Library.Word"
begin

section \<open>JavaScript strings\<close>

text \<open>
  A JavaScript string is a sequence of UTF-16 code units. Literals of the source are
  written \<open>js ''...''\<close>.
\<close>

type_synonym jsstring = "16 word list"

definition js :: "string \<Rightarrow> jsstring" where
  "js s = map (\<lambda>c. of_nat (of_char c)) s"

text \<open>
  \<open>String.prototype.trim\<close> removes the code units of the ECMAScript productions
  WhiteSpace and LineTerminator from both ends.
\<close>

definition is_white_space :: "16 word \<Rightarrow> bool" where
  "is_white_space c \<longleftrightarrow>
     c \<in> {0x9, 0xA, 0xB, 0xC, 0xD, 0x20, 0xA0, 0x1680, 0x2028, 0x2029,
          0x202F, 0x205F, 0x3000, 0xFEFF}
     \<or> (0x2000 \<le> c \<and> c \<le> 0x200A)"

definition trim :: "jsstring \<Rightarrow> jsstring" where
  "trim s = rev (dropWhile is_white_space (rev (dropWhile is_white_space s)))"

section \<open>Terminal history contribution\<close>

text \<open>
  \<open>TerminalHistoryContribution\<close> (terminal.history.contribution.ts, lines 48-65).
  The constructor subscribes to \<open>onDidAddCapabilityType\<close>; each time the
  \<open>CommandDetection\<close> capability is added and \<open>capabilities.get\<close> returns it, one more
  \<open>onCommandFinished\<close> listener is attached. The command history service lives outside
  this file, so its state is the sequence of \<open>add (key, {shellType})\<close> calls it received.
\<close>

datatype capability = CwdDetection | CommandDetection | OtherCapability nat

datatype 's terminal_event =
    DidAddCapabilityType capability bool
      \<comment> \<open>the capability type, and whether \<open>capabilities.get\<close> returns an object\<close>
  | CommandFinished jsstring bool 's
      \<comment> \<open>\<open>e.command\<close>, whether \<open>getCommandHistory\<close> returns a history, \<open>shellType\<close>\<close>

record 's history_state =
  commandListeners :: nat
  commandAdds :: "(jsstring \<times> 's) list"

definition initial_state :: "'s history_state" where
  "initial_state = \<lparr>commandListeners = 0, commandAdds = []\<rparr>"

text \<open>The body of the \<open>onCommandFinished\<close> listener (lines 57-61).\<close>

definition onCommandFinished ::
  "jsstring \<Rightarrow> bool \<Rightarrow> 's \<Rightarrow> (jsstring \<times> 's) list \<Rightarrow> (jsstring \<times> 's) list" where
  "onCommandFinished command hasHistory shellType adds =
     (if length (trim command) > 0
      then (if hasHistory then adds @ [(command, shellType)] else adds)
      else adds)"

fun step :: "'s history_state \<Rightarrow> 's terminal_event \<Rightarrow> 's history_state" where
  "step s (DidAddCapabilityType cap present) =
     (case cap of
        CommandDetection \<Rightarrow>
          (if present then s\<lparr>commandListeners := Suc (commandListeners s)\<rparr> else s)
      | _ \<Rightarrow> s)"
| "step s (CommandFinished command hasHistory shellType) =
     s\<lparr>commandAdds :=
         ((onCommandFinished command hasHistory shellType) ^^ commandListeners s)
           (commandAdds s)\<rparr>"

fun run :: "'s history_state \<Rightarrow> 's terminal_event list \<Rightarrow> 's history_state" where
  "run s [] = s"
| "run s (e # es) = run (step s e) es"

definition recorded :: "(jsstring \<times> 's) list \<Rightarrow> bool" where
  "recorded adds = list_all (\<lambda>c. length (trim (fst c)) > 0) adds"

section \<open>Bundling: \<open>optimizeESMTask\<close>\<close>

text \<open>
  The optimizer of the build (source file \<open>part_000\<close>: \<open>optimizeESMTask\<close>,
  \<open>optimizeManualTask\<close>, \<open>optimizeTask\<close>, \<open>minifyTask\<close>). The file system, the
  bundler, \<open>path.join\<close>, \<open>JSON.parse\<close> and the UTF-8 conversions of \<open>Buffer\<close> are not part
  of it; they are parameters of the model, collected in an environment record. A promise
  that rejects and a call that throws are \<open>Inl\<close> values.
\<close>

type_synonym bytes = "8 word list"

datatype js_error =
    ReadError jsstring    \<comment> \<open>\<open>fs.promises.readFile\<close> rejected for this path\<close>
  | BuildError jsstring   \<comment> \<open>\<open>esbuild.build\<close> rejected\<close>
  | SyntaxError           \<comment> \<open>\<open>JSON.parse\<close> threw\<close>
  | TypeError             \<comment> \<open>a property was read from \<open>undefined\<close>\<close>
  | Error jsstring        \<comment> \<open>\<open>new Error(message)\<close>\<close>

text \<open>
  Modelled from the spec: the fields of \<open>bundle.IEntryPoint\<close>, whose declaration is in
  another file (\<open>name\<close>, and optional \<open>include\<close>, \<open>exclude\<close>, \<open>prepend\<close>, \<open>dest\<close>); of a
  prepend item only its \<open>path\<close> is read.
\<close>

record entry_point =
  ep_name :: jsstring
  ep_include :: "jsstring list option"
  ep_exclude :: "jsstring list option"
  ep_prepend :: "jsstring list option"
  ep_dest :: "jsstring option"

record banner =
  banner_js :: jsstring
  banner_css :: jsstring

text \<open>
  The options of \<open>esbuild.build\<close> that vary with the entry point (lines 128-154); the
  others are constants of the source (\<open>bundle\<close>, \<open>packages\<close>, \<open>platform\<close>, \<open>format\<close>,
  \<open>sourcemap\<close>, \<open>plugins\<close>, \<open>target\<close>, \<open>loader\<close>, \<open>assetNames\<close>, \<open>write\<close>, \<open>metafile\<close>).
\<close>

record build_options =
  bo_external :: "jsstring list option"
  bo_banner :: "banner option"
  bo_entry_in :: jsstring
  bo_entry_out :: jsstring
  bo_outdir :: jsstring

text \<open>
  An \<open>esbuild.OutputFile\<close> carries its bytes and their decoding as text. Of the build
  result the source reads \<open>outputFiles\<close> and \<open>Object.keys(res.metafile.inputs)\<close>.
\<close>

record output_file =
  of_path :: jsstring
  of_contents :: bytes
  of_text :: jsstring

record build_result =
  outputFiles :: "output_file list"
  metafile_inputs :: "jsstring list"

record 'j vinyl =
  contents :: bytes
  sourceMap :: "'j option"
  path :: jsstring
  base :: jsstring

record 'j bundle_env =
  readFile :: "jsstring \<Rightarrow> jsstring option"
  tslibPath :: jsstring
  path_join :: "jsstring list \<Rightarrow> jsstring"
  REPO_ROOT_PATH :: jsstring
  path_parse_name :: "jsstring \<Rightarrow> jsstring"
  esbuild_build :: "build_options \<Rightarrow> js_error + build_result"
  JSON_parse :: "jsstring \<Rightarrow> 'j option"
  Buffer_from :: "jsstring \<Rightarrow> bytes"

text \<open>\<open>IOptimizeAMDTaskOpts\<close> (lines 23-62), the fields the task reads.\<close>

record 'l optimize_opts =
  opt_src :: jsstring
  opt_entryPoints :: "entry_point list"
  opt_header :: "jsstring option"
  opt_languages :: "'l list option"
  opt_fileContentMapper :: "(jsstring \<Rightarrow> jsstring \<Rightarrow> jsstring) option"

definition DEFAULT_FILE_HEADER :: jsstring where
  "DEFAULT_FILE_HEADER =
     js ''/*!--------------------------------------------------------'' @ [0xA] @
     js '' * Copyright (C) Microsoft Corporation. All rights reserved.'' @ [0xA] @
     js '' *--------------------------------------------------------*/''"

subsection \<open>Entry points and mentioned modules (lines 74-86)\<close>

text \<open>
  \<open>cjsOpts.entryPoints.forEach(e => entryPoints.push({ name: path.parse(e).name }))\<close>;
  the second argument is \<open>cjsOpts?.entryPoints\<close>.
\<close>

definition all_entryPoints ::
  "'j bundle_env \<Rightarrow> entry_point list \<Rightarrow> jsstring list option \<Rightarrow> entry_point list" where
  "all_entryPoints env entryPoints cjs =
     (case cjs of
        None \<Rightarrow> entryPoints
      | Some es \<Rightarrow>
          entryPoints @
          map (\<lambda>e. \<lparr>ep_name = path_parse_name env e, ep_include = None, ep_exclude = None,
                     ep_prepend = None, ep_dest = None\<rparr>) es)"

text \<open>\<open>xs?.forEach(allMentionedModules.add, allMentionedModules)\<close>\<close>

definition forEach_add :: "jsstring list option \<Rightarrow> jsstring set \<Rightarrow> jsstring set" where
  "forEach_add xs mentioned = (case xs of None \<Rightarrow> mentioned | Some l \<Rightarrow> fold insert l mentioned)"

definition mention :: "entry_point \<Rightarrow> jsstring set \<Rightarrow> jsstring set" where
  "mention entryPoint mentioned =
     forEach_add (ep_exclude entryPoint)
       (forEach_add (ep_include entryPoint) (insert (ep_name entryPoint) mentioned))"

definition allMentionedModules :: "entry_point list \<Rightarrow> jsstring set" where
  "allMentionedModules entryPoints = fold mention entryPoints {} - {js ''vs/css''}"

subsection \<open>The banner of one entry point (lines 98-126, 144)\<close>

text \<open>
  \<open>s.replace(/\.[^/.]+$/, '')\<close>: a final dot followed by one or more code units, none of
  them a dot or a slash, is removed.
\<close>

definition strip_extension :: "jsstring \<Rightarrow> jsstring" where
  "strip_extension s =
     (let ext = takeWhile (\<lambda>c. c \<noteq> 0x2E \<and> c \<noteq> 0x2F) (rev s) in
      case dropWhile (\<lambda>c. c \<noteq> 0x2E \<and> c \<noteq> 0x2F) (rev s) of
        [] \<Rightarrow> s
      | c # stem \<Rightarrow> if c = 0x2E \<and> ext \<noteq> [] then rev stem else s)"

definition dest_of :: "entry_point \<Rightarrow> jsstring" where
  "dest_of entryPoint =
     (case ep_dest entryPoint of None \<Rightarrow> ep_name entryPoint | Some d \<Rightarrow> strip_extension d)"

text \<open>
  The loop over \<open>entryPoint.prepend\<close>. Every \<open>readFile\<close> is recorded in a log of the
  paths read; a read that rejects ends the loop with the error.
\<close>

fun prepend_loop ::
  "'j bundle_env \<Rightarrow> jsstring \<Rightarrow> jsstring list \<Rightarrow> jsstring \<Rightarrow> jsstring list \<Rightarrow>
   jsstring list \<times> (js_error + jsstring)" where
  "prepend_loop env src [] bjs log = (log, Inr bjs)"
| "prepend_loop env src (item # items) bjs log =
     (let fullpath = path_join env [REPO_ROOT_PATH env, src, item] in
      case readFile env fullpath of
        None \<Rightarrow> (log @ [fullpath], Inl (ReadError fullpath))
      | Some source \<Rightarrow> prepend_loop env src items (bjs @ source @ [0xA]) (log @ [fullpath]))"

definition make_banner ::
  "'j bundle_env \<Rightarrow> jsstring \<Rightarrow> entry_point \<Rightarrow> jsstring list \<times> (js_error + banner)" where
  "make_banner env src entryPoint =
     (case readFile env (tslibPath env) of
        None \<Rightarrow> ([tslibPath env], Inl (ReadError (tslibPath env)))
      | Some tslib \<Rightarrow>
          (case (case ep_prepend entryPoint of
                   None \<Rightarrow> ([tslibPath env], Inr (DEFAULT_FILE_HEADER @ tslib))
                 | Some items \<Rightarrow>
                     if length items \<noteq> 0
                     then prepend_loop env src items (DEFAULT_FILE_HEADER @ tslib) [tslibPath env]
                     else ([tslibPath env], Inr (DEFAULT_FILE_HEADER @ tslib))) of
             (log, Inl e) \<Rightarrow> (log, Inl e)
           | (log, Inr bjs) \<Rightarrow>
               (log, Inr \<lparr>banner_js = bjs, banner_css = DEFAULT_FILE_HEADER\<rparr>)))"

text \<open>Line 144: the \<open>banner\<close> option of the build.\<close>

definition passed_banner :: "entry_point \<Rightarrow> banner \<Rightarrow> banner option" where
  "passed_banner entryPoint b =
     (if ep_name entryPoint = js ''vs/workbench/workbench.web.main'' then None else Some b)"

definition build_options_of :: "'j bundle_env \<Rightarrow> jsstring \<Rightarrow> entry_point \<Rightarrow> banner \<Rightarrow> build_options" where
  "build_options_of env src entryPoint b =
     \<lparr>bo_external = ep_exclude entryPoint,
      bo_banner = passed_banner entryPoint b,
      bo_entry_in = path_join env [REPO_ROOT_PATH env, src, ep_name entryPoint @ js ''.js''],
      bo_entry_out = dest_of entryPoint,
      bo_outdir = path_join env [REPO_ROOT_PATH env, src]\<rparr>"

text \<open>
  The banner as the specification words it: the header, the shim, then the contents of
  the prepend files, in order.
\<close>

definition spec_banner_js :: "jsstring \<Rightarrow> jsstring list \<Rightarrow> jsstring" where
  "spec_banner_js tslib sources = DEFAULT_FILE_HEADER @ tslib @ concat sources"

subsection \<open>The files of one build (lines 155-185)\<close>

definition endsWith :: "jsstring \<Rightarrow> jsstring \<Rightarrow> bool" where
  "endsWith s suffix \<longleftrightarrow>
     length suffix \<le> length s \<and> drop (length s - length suffix) s = suffix"

text \<open>
  Lines 167-170. The loop also records each call of the mapper, as the pair of its
  arguments.
\<close>

fun mapper_loop ::
  "(jsstring \<Rightarrow> jsstring \<Rightarrow> jsstring) \<Rightarrow> jsstring \<Rightarrow> jsstring list \<Rightarrow>
   (jsstring \<times> jsstring) list \<Rightarrow> jsstring \<times> (jsstring \<times> jsstring) list" where
  "mapper_loop fileContentMapper newText [] calls = (newText, calls)"
| "mapper_loop fileContentMapper newText (input # inputs) calls =
     mapper_loop fileContentMapper (fileContentMapper newText input) inputs
       (calls @ [(newText, input)])"

definition new_contents ::
  "'j bundle_env \<Rightarrow> (jsstring \<Rightarrow> jsstring \<Rightarrow> jsstring) option \<Rightarrow> build_result \<Rightarrow>
   output_file \<Rightarrow> bytes" where
  "new_contents env mapper res file =
     (if endsWith (of_path file) (js ''.js'')
      then (case mapper of
              None \<Rightarrow> of_contents file
            | Some m \<Rightarrow>
                Buffer_from env (fst (mapper_loop m (of_text file) (metafile_inputs res) [])))
      else of_contents file)"

definition sourceMapFile_of :: "build_result \<Rightarrow> output_file \<Rightarrow> output_file option" where
  "sourceMapFile_of res file =
     (if endsWith (of_path file) (js ''.js'')
      then find (\<lambda>f. of_path f = of_path file @ js ''.map'') (outputFiles res)
      else None)"

definition vinyl_of ::
  "'j bundle_env \<Rightarrow> jsstring \<Rightarrow> (jsstring \<Rightarrow> jsstring \<Rightarrow> jsstring) option \<Rightarrow> build_result \<Rightarrow>
   output_file \<Rightarrow> js_error + 'j vinyl" where
  "vinyl_of env src mapper res file =
     (case sourceMapFile_of res file of
        None \<Rightarrow>
          Inr \<lparr>contents = new_contents env mapper res file, sourceMap = None,
               path = of_path file, base = path_join env [REPO_ROOT_PATH env, src]\<rparr>
      | Some sourceMapFile \<Rightarrow>
          (case JSON_parse env (of_text sourceMapFile) of
             None \<Rightarrow> Inl SyntaxError
           | Some j \<Rightarrow>
               Inr \<lparr>contents = new_contents env mapper res file, sourceMap = Some j,
                    path = of_path file, base = path_join env [REPO_ROOT_PATH env, src]\<rparr>))"

text \<open>
  The \<open>then\<close> callback: one \<open>files.push\<close> per output file, in the bundler's order. The
  result is the list of files it pushed, or the error it threw.
\<close>

fun then_files ::
  "'j bundle_env \<Rightarrow> jsstring \<Rightarrow> (jsstring \<Rightarrow> jsstring \<Rightarrow> jsstring) option \<Rightarrow> build_result \<Rightarrow>
   output_file list \<Rightarrow> js_error + 'j vinyl list" where
  "then_files env src mapper res [] = Inr []"
| "then_files env src mapper res (file # rest) =
     (case vinyl_of env src mapper res file of
        Inl e \<Rightarrow> Inl e
      | Inr v \<Rightarrow>
          (case then_files env src mapper res rest of
             Inl e \<Rightarrow> Inl e
           | Inr vs \<Rightarrow> Inr (v # vs)))"

definition build_task ::
  "'j bundle_env \<Rightarrow> 'l optimize_opts \<Rightarrow> entry_point \<Rightarrow> banner \<Rightarrow> js_error + 'j vinyl list" where
  "build_task env opts entryPoint b =
     (case esbuild_build env (build_options_of env (opt_src opts) entryPoint b) of
        Inl e \<Rightarrow> Inl e
      | Inr res \<Rightarrow>
          then_files env (opt_src opts) (opt_fileContentMapper opts) res (outputFiles res))"

subsection \<open>\<open>bundleAsync\<close> (lines 88-193)\<close>

text \<open>
  The loop awaits the reads of each entry point's banner, so a read that rejects ends
  \<open>bundleAsync\<close> there; the build tasks themselves are only started, and collected in
  \<open>tasks\<close>.
\<close>

fun launch ::
  "'j bundle_env \<Rightarrow> 'l optimize_opts \<Rightarrow> entry_point list \<Rightarrow>
   js_error + (js_error + 'j vinyl list) list" where
  "launch env opts [] = Inr []"
| "launch env opts (entryPoint # entryPoints) =
     (case snd (make_banner env (opt_src opts) entryPoint) of
        Inl e \<Rightarrow> Inl e
      | Inr b \<Rightarrow>
          (case launch env opts entryPoints of
             Inl e \<Rightarrow> Inl e
           | Inr tasks \<Rightarrow> Inr (build_task env opts entryPoint b # tasks)))"

text \<open>
  The tasks run concurrently and finish in an order the source does not fix. A schedule
  is a list of numbers: each picks, among the tasks still running, the one that finishes
  next (an exhausted schedule lets them finish in the order they were started). Every
  schedule yields a permutation of the tasks.
\<close>

function completion_order :: "nat list \<Rightarrow> 'a list \<Rightarrow> 'a list" where
  "completion_order ks [] = []"
| "completion_order [] (t # ts) = t # ts"
| "completion_order (k # ks) (t # ts) =
     (let i = k mod length (t # ts) in
      (t # ts) ! i # completion_order ks (take i (t # ts) @ drop (Suc i) (t # ts)))"
  by pat_completeness auto
termination
  by (relation "measure (\<lambda>(ks, ts). length ts)") auto

text \<open>
  \<open>await Promise.all(tasks); return { files }\<close>. Each task that completes has pushed
  its files onto the shared array; the first task that rejects rejects the join.
\<close>

fun settle :: "(js_error + 'a list) list \<Rightarrow> 'a list \<Rightarrow> js_error + 'a list" where
  "settle [] files = Inr files"
| "settle (Inl e # tasks) files = Inl e"
| "settle (Inr pushed # tasks) files = settle tasks (files @ pushed)"

definition bundleAsync ::
  "'j bundle_env \<Rightarrow> 'l optimize_opts \<Rightarrow> entry_point list \<Rightarrow> nat list \<Rightarrow>
   js_error + 'j vinyl list" where
  "bundleAsync env opts entryPoints schedule =
     (case launch env opts entryPoints of
        Inl e \<Rightarrow> Inl e
      | Inr tasks \<Rightarrow> settle (completion_order schedule tasks) [])"

subsection \<open>The output stream (lines 195-219)\<close>

text \<open>
  The stream stages that come from other modules: \<open>es.merge\<close>, \<open>sourcemaps.write\<close> and
  \<open>processNlsFiles\<close> (a function of its options). \<open>es.through()\<close> without a callback
  re-emits what it receives.
\<close>

record 'l nls_opts =
  nls_out :: jsstring
  nls_fileHeader :: jsstring
  nls_languages :: "'l list"

record ('j, 'l) stream_env =
  es_merge :: "'j vinyl list \<Rightarrow> 'j vinyl list \<Rightarrow> 'j vinyl list"
  sourcemaps_write :: "'j vinyl list \<Rightarrow> 'j vinyl list"
  processNlsFiles :: "'l nls_opts \<Rightarrow> 'j vinyl list \<Rightarrow> 'j vinyl list"

definition through :: "'a list \<Rightarrow> 'a list" where
  "through stream = stream"

definition header_or_default :: "jsstring option \<Rightarrow> jsstring" where
  "header_or_default header =
     (case header of None \<Rightarrow> DEFAULT_FILE_HEADER
      | Some h \<Rightarrow> if h = [] then DEFAULT_FILE_HEADER else h)"

definition nls_stage ::
  "('j, 'l) stream_env \<Rightarrow> 'l optimize_opts \<Rightarrow> 'j vinyl list \<Rightarrow> 'j vinyl list" where
  "nls_stage senv opts =
     (case opt_languages opts of
        None \<Rightarrow> through
      | Some languages \<Rightarrow>
          if length languages \<noteq> 0
          then processNlsFiles senv
                 \<lparr>nls_out = opt_src opts, nls_fileHeader = header_or_default (opt_header opts),
                  nls_languages = languages\<rparr>
          else through)"

text \<open>
  \<open>optimizeESMTask\<close>: the files the returned stream emits, or the error with which
  \<open>bundleAsync\<close> rejected (then nothing is piped into the stream). \<open>resources\<close> are the
  files \<open>gulp.src(opts.resources)\<close> reads.
\<close>

definition optimizeESMTask ::
  "'j bundle_env \<Rightarrow> ('j, 'l) stream_env \<Rightarrow> 'l optimize_opts \<Rightarrow> jsstring list option \<Rightarrow>
   nat list \<Rightarrow> 'j vinyl list \<Rightarrow> js_error + 'j vinyl list" where
  "optimizeESMTask env senv opts cjs schedule resources =
     (case bundleAsync env opts (all_entryPoints env (opt_entryPoints opts) cjs) schedule of
        Inl e \<Rightarrow> Inl e
      | Inr files \<Rightarrow>
          Inr (nls_stage senv opts (sourcemaps_write senv (es_merge senv files resources))))"

text \<open>The same task with the localization stage left out of the pipe.\<close>

definition optimizeESMTask_without_nls ::
  "'j bundle_env \<Rightarrow> ('j, 'l) stream_env \<Rightarrow> 'l optimize_opts \<Rightarrow> jsstring list option \<Rightarrow>
   nat list \<Rightarrow> 'j vinyl list \<Rightarrow> js_error + 'j vinyl list" where
  "optimizeESMTask_without_nls env senv opts cjs schedule resources =
     (case bundleAsync env opts (all_entryPoints env (opt_entryPoints opts) cjs) schedule of
        Inl e \<Rightarrow> Inl e
      | Inr files \<Rightarrow> Inr (sourcemaps_write senv (es_merge senv files resources)))"

subsection \<open>Auxiliary notions for the statements\<close>

text \<open>The module-ids of an optional list.\<close>

definition listed :: "jsstring list option \<Rightarrow> jsstring set" where
  "listed xs = (case xs of None \<Rightarrow> {} | Some l \<Rightarrow> set l)"

text \<open>The prepend paths of an entry point, none when the field is absent.\<close>

definition prepend_items :: "entry_point \<Rightarrow> jsstring list" where
  "prepend_items entryPoint = (case ep_prepend entryPoint of None \<Rightarrow> [] | Some items \<Rightarrow> items)"

text \<open>
  What one entry point contributes to \<open>bundleAsync\<close>: the error of its banner reads or of
  its build task, or the files its task pushes.
\<close>

definition entry_outcome ::
  "'j bundle_env \<Rightarrow> 'l optimize_opts \<Rightarrow> entry_point \<Rightarrow> js_error + 'j vinyl list" where
  "entry_outcome env opts entryPoint =
     (case snd (make_banner env (opt_src opts) entryPoint) of
        Inl e \<Rightarrow> Inl e
      | Inr b \<Rightarrow> build_task env opts entryPoint b)"

subsection \<open>A concrete environment\<close>

text \<open>
  A small file system and bundler on which the definitions can be evaluated: the shim
  is \<open>T\<close>, one prepend file holds \<open>x\<close>, the build of entry point \<open>b\<close> is rejected and every
  other build emits one script \<open>a.js\<close> from the inputs \<open>1\<close> and \<open>2\<close>.
\<close>

fun join_slash :: "jsstring list \<Rightarrow> jsstring" where
  "join_slash [] = []"
| "join_slash [p] = p"
| "join_slash (p # q # ps) = p @ [0x2F] @ join_slash (q # ps)"

definition example_env :: "jsstring bundle_env" where
  "example_env =
     \<lparr>readFile = (\<lambda>p. if p = js ''tslib.es6.js'' then Some (js ''T'')
                     else if p = js ''root/out/p.js'' then Some (js ''x'') else None),
      tslibPath = js ''tslib.es6.js'',
      path_join = join_slash,
      REPO_ROOT_PATH = js ''root'',
      path_parse_name = (\<lambda>p. p),
      esbuild_build = (\<lambda>options.
         if bo_entry_out options = js ''b'' then Inl (BuildError (js ''b''))
         else Inr \<lparr>outputFiles = [\<lparr>of_path = js ''a.js'', of_contents = [0x61], of_text = js ''a''\<rparr>],
                   metafile_inputs = [js ''1'', js ''2'']\<rparr>),
      JSON_parse = Some,
      Buffer_from = map ucast\<rparr>"

definition example_entry :: "jsstring \<Rightarrow> jsstring list option \<Rightarrow> entry_point" where
  "example_entry name prepend =
     \<lparr>ep_name = name, ep_include = None, ep_exclude = None, ep_prepend = prepend,
      ep_dest = None\<rparr>"

definition example_opts :: "nat optimize_opts" where
  "example_opts =
     \<lparr>opt_src = js ''out'', opt_entryPoints = [example_entry (js ''a'') None],
      opt_header = None, opt_languages = Some [],
      opt_fileContentMapper = Some (\<lambda>contents p. contents @ p)\<rparr>"

definition example_stream_env :: "(jsstring, nat) stream_env" where
  "example_stream_env =
     \<lparr>es_merge = (\<lambda>bundles resources. bundles @ resources),
      sourcemaps_write = (\<lambda>stream. stream),
      processNlsFiles = (\<lambda>options stream. [])\<rparr>"

section \<open>Minification: \<open>minifyTask\<close> (lines 295-351)\<close>

text \<open>
  \<open>s.match(/[^\x00-\xFF]+/g)\<close>: the maximal runs of code units above \<open>0xFF\<close>, from left
  to right; \<open>null\<close> when there is none. \<open>cur\<close> is the run being read.
\<close>

fun match_runs :: "jsstring \<Rightarrow> jsstring \<Rightarrow> jsstring list" where
  "match_runs cur [] = (if cur = [] then [] else [cur])"
| "match_runs cur (c # cs) =
     (if c > 0xFF then match_runs (cur @ [c]) cs
      else (if cur = [] then [] else [cur]) @ match_runs [] cs)"

definition unicode_match :: "jsstring \<Rightarrow> jsstring list option" where
  "unicode_match s = (case match_runs [] s of [] \<Rightarrow> None | m # ms \<Rightarrow> Some (m # ms))"

definition non_ascii_message :: "jsstring \<Rightarrow> jsstring \<Rightarrow> jsstring" where
  "non_ascii_message found p =
     js ''Found non-ascii character '' @ found @ js '' in the minified output of '' @ p @
     js ''. Non-ASCII characters in the output can cause performance problems when loading. Please review if you have introduced a regular expression that esbuild is not automatically converting and convert it to using unicode escape sequences.''"

text \<open>
  How the callback of \<open>es.map\<close> ends for one file: \<open>cb(undefined, f)\<close> emits the file,
  \<open>cb(err)\<close> emits an error, or the \<open>then\<close> callback throws, which leaves an unhandled
  rejection and \<open>cb\<close> uncalled.
\<close>

datatype 'a mapped = Emitted 'a | Errored js_error | Thrown js_error

text \<open>The second argument with which \<open>cb\<close> is called, if it is called with one.\<close>

definition cb_data :: "'a mapped \<Rightarrow> 'a option" where
  "cb_data outcome = (case outcome of Emitted f \<Rightarrow> Some f | Errored e \<Rightarrow> None | Thrown e \<Rightarrow> None)"

text \<open>
  The parts of the pipeline that come from other modules: the bundler in minify mode
  (its result for the entry point \<open>f.path\<close>), \<open>Buffer.toString\<close>, \<open>JSON.parse\<close>, the filter
  \<open>**/*.js\<close>, \<open>sourcemaps.init\<close>, and the stages after \<open>jsFilter.restore\<close> (the style and
  image minifiers, \<open>sourcemaps.write\<close> and \<open>gulp.dest\<close>), which handle one file at a time
  and give the files written for it or the error of the stage that failed.
  \<open>m_unhandled_fatal\<close> says whether the runtime ends the process at an unhandled
  rejection.
\<close>

record 'j minify_env =
  m_esbuild_build :: "jsstring \<Rightarrow> js_error + output_file list"
  m_toString :: "bytes \<Rightarrow> jsstring"
  m_JSON_parse :: "jsstring \<Rightarrow> 'j option"
  m_jsFilter :: "'j vinyl \<Rightarrow> bool"
  m_sourcemaps_init :: "'j vinyl \<Rightarrow> 'j vinyl"
  m_rest :: "'j vinyl \<Rightarrow> js_error + 'j vinyl list"
  m_unhandled_fatal :: bool

text \<open>
  The callback of \<open>es.map\<close> (lines 310-334). The first component is the file record
  \<open>f\<close> as the callback leaves it, the second what the stage does.
\<close>

definition minify_js :: "'j minify_env \<Rightarrow> 'j vinyl \<Rightarrow> 'j vinyl \<times> 'j vinyl mapped" where
  "minify_js env f =
     (case m_esbuild_build env (path f) of
        Inl e \<Rightarrow> (f, Errored e)
      | Inr outs \<Rightarrow>
          (case find (\<lambda>f. endsWith (of_path f) (js ''.js'')) outs of
             None \<Rightarrow> (f, Thrown TypeError)
           | Some jsFile \<Rightarrow>
               (let buffer = of_contents jsFile in
                case unicode_match (m_toString env buffer) of
                  Some unicodeMatch \<Rightarrow>
                    (f, Errored (Error (non_ascii_message
                          (case unicodeMatch of [] \<Rightarrow> js ''undefined'' | m # ms \<Rightarrow> m) (path f))))
                | None \<Rightarrow>
                    (case find (\<lambda>f. endsWith (of_path f) (js ''.js.map'')) outs of
                       None \<Rightarrow> (f\<lparr>contents := buffer\<rparr>, Thrown TypeError)
                     | Some sourceMapFile \<Rightarrow>
                         (case m_JSON_parse env (of_text sourceMapFile) of
                            None \<Rightarrow> (f\<lparr>contents := buffer\<rparr>, Thrown SyntaxError)
                          | Some j \<Rightarrow>
                              (f\<lparr>contents := buffer, sourceMap := Some j\<rparr>,
                               Emitted (f\<lparr>contents := buffer, sourceMap := Some j\<rparr>)))))))"






text \<open>
  A bundler for evaluation: the script \<open>u.js\<close> minifies to the single character U+65E5,
  every other script to \<open>a\<close>.
\<close>

definition example_minify_env :: "jsstring minify_env" where
  "example_minify_env =
     \<lparr>m_esbuild_build = (\<lambda>p.
         Inr [\<lparr>of_path = js ''a.js'',
               of_contents = (if p = js ''u.js'' then [0xE6, 0x97, 0xA5] else [0x61]),
               of_text = (if p = js ''u.js'' then [0x65E5] else js ''a'')\<rparr>,
              \<lparr>of_path = js ''a.js.map'', of_contents = [0x7B, 0x7D], of_text = js ''{}''\<rparr>]),
      m_toString = (\<lambda>b. if b = [0xE6, 0x97, 0xA5] then [0x65E5] else map ucast b),
      m_JSON_parse = Some,
      m_jsFilter = (\<lambda>f. endsWith (path f) (js ''.js'')),
      m_sourcemaps_init = (\<lambda>f. f),
      m_rest = (\<lambda>f. Inr [f]),
      m_unhandled_fatal = True\<rparr>"

text \<open>The first maximal run of code units above \<open>0xFF\<close> in a text.\<close>

definition offending :: "jsstring \<Rightarrow> jsstring" where
  "offending s = takeWhile (\<lambda>c. c > 0xFF) (dropWhile (\<lambda>c. c \<le> 0xFF) s)"

definition example_script :: "jsstring \<Rightarrow> jsstring vinyl" where
  "example_script p = \<lparr>contents = [0x62], sourceMap = Some (js ''old''), path = p, base = js ''out''\<rparr>"

section \<open>Manual concatenation: \<open>optimizeManualTask\<close>\<close>

text \<open>\<open>IOptimizeManualTaskOpts\<close> (lines 241-251).\<close>

record manual_opts =
  mo_src :: "jsstring list"
  mo_out :: jsstring

text \<open>
  A file as \<open>gulp.src\<close> emits it: its base, its path relative to the base, its contents
  (\<open>null\<close> for a directory) and the modification time of its \<open>stat\<close>, if it has one.
\<close>

record src_file =
  sf_base :: jsstring
  sf_relative :: jsstring
  sf_contents :: "bytes option"
  sf_mtime :: "nat option"

record joined_file =
  jf_base :: jsstring
  jf_path :: jsstring
  jf_contents :: bytes

text \<open>
  \<open>gulp.src\<close> and \<open>path.join\<close> are parameters. \<open>gulp.src(globs)\<close> throws when the globs
  are not valid (an empty list is not), which is the outer \<open>Inl\<close>; the stream it returns
  emits the files the globs match, in the order they resolve, or an error (a glob without
  wildcards that matches nothing, since line 256 does not pass \<open>allowEmpty\<close>), which is
  the inner \<open>Inl\<close>.
\<close>

record manual_env =
  gulp_src :: "jsstring list \<Rightarrow> js_error + (js_error + src_file list)"
  m_path_join :: "jsstring list \<Rightarrow> jsstring"

text \<open>
  \<open>concat(opt.out)\<close> is the package gulp-concat, a dependency of the build and not part
  of its sources. It throws when its argument is empty. Called without options, its
  separator \<open>newLine\<close> is a line feed. For every file whose contents are not \<open>null\<close> it
  keeps the file as \<open>latestFile\<close> if none is kept yet or the file was modified later,
  and adds the contents to its \<open>Concat\<close> object, which puts the separator before every
  part but the first. At the end of the stream it emits nothing if no file was added;
  otherwise it emits one file, a clone of \<open>latestFile\<close> with the path
  \<open>path.join(latestFile.base, fileName)\<close> and the joined parts as contents.
\<close>

record concat_state =
  latestFile :: "src_file option"
  latestMod :: "nat option"
  contentParts :: "bytes list option"

definition concat_add :: "bytes \<Rightarrow> bytes list \<Rightarrow> bytes \<Rightarrow> bytes list" where
  "concat_add separator parts content =
     (if length parts \<noteq> 0 then parts @ [separator, content] else parts @ [content])"

definition modified_later :: "src_file \<Rightarrow> nat option \<Rightarrow> bool" where
  "modified_later f latest =
     (case latest of
        None \<Rightarrow> True
      | Some m \<Rightarrow> (case sf_mtime f of None \<Rightarrow> False | Some t \<Rightarrow> t > m))"

fun bufferContents :: "bytes \<Rightarrow> src_file list \<Rightarrow> concat_state \<Rightarrow> concat_state" where
  "bufferContents newLine [] st = st"
| "bufferContents newLine (f # fs) st =
     (case sf_contents f of
        None \<Rightarrow> bufferContents newLine fs st
      | Some content \<Rightarrow>
          bufferContents newLine fs
            \<lparr>latestFile = (if modified_later f (latestMod st) then Some f else latestFile st),
             latestMod = (if modified_later f (latestMod st) then sf_mtime f else latestMod st),
             contentParts =
               Some (concat_add newLine
                       (case contentParts st of None \<Rightarrow> [] | Some ps \<Rightarrow> ps) content)\<rparr>)"

definition endStream :: "manual_env \<Rightarrow> jsstring \<Rightarrow> concat_state \<Rightarrow> joined_file list" where
  "endStream menv fileName st =
     (case latestFile st of
        None \<Rightarrow> []
      | Some latest \<Rightarrow>
          (case contentParts st of
             None \<Rightarrow> []
           | Some parts \<Rightarrow>
               [\<lparr>jf_base = sf_base latest,
                 jf_path = m_path_join menv [sf_base latest, fileName],
                 jf_contents = concat parts\<rparr>]))"

definition gulp_concat :: "manual_env \<Rightarrow> jsstring \<Rightarrow> src_file list \<Rightarrow> joined_file list" where
  "gulp_concat menv fileName files =
     endStream menv fileName
       (bufferContents [0xA] files \<lparr>latestFile = None, latestMod = None, contentParts = None\<rparr>)"

text \<open>
  The callback of \<open>options.map\<close> (lines 255-257): \<open>gulp.src(opt.src)\<close>, then
  \<open>concat(opt.out)\<close>, then the stream. The outer \<open>Inl\<close> is an exception thrown while the
  streams are set up, the inner one an error of the stream.
\<close>

definition concatenation ::
  "manual_env \<Rightarrow> manual_opts \<Rightarrow> js_error + (js_error + joined_file list)" where
  "concatenation menv opt =
     (case gulp_src menv (mo_src opt) of
        Inl e \<Rightarrow> Inl e
      | Inr stream \<Rightarrow>
          if mo_out opt = [] then Inl (Error (js ''gulp-concat: Missing file option''))
          else Inr (case stream of
                      Inl e \<Rightarrow> Inl e
                    | Inr files \<Rightarrow> Inr (gulp_concat menv (mo_out opt) files)))"

fun concatenations ::
  "manual_env \<Rightarrow> manual_opts list \<Rightarrow> js_error + (js_error + joined_file list) list" where
  "concatenations menv [] = Inr []"
| "concatenations menv (opt # options) =
     (case concatenation menv opt of
        Inl e \<Rightarrow> Inl e
      | Inr stream \<Rightarrow>
          (case concatenations menv options of
             Inl e \<Rightarrow> Inl e
           | Inr streams \<Rightarrow> Inr (stream # streams)))"

text \<open>
  Lines 253-261. \<open>es.merge\<close> emits the files of the streams as they arrive, in an order
  the source does not fix (the schedule \<open>arrival\<close>); the first stream that emits an error
  ends the run.
\<close>

definition optimizeManualTask ::
  "manual_env \<Rightarrow> nat list \<Rightarrow> manual_opts list \<Rightarrow> js_error + joined_file list" where
  "optimizeManualTask menv arrival options =
     (case concatenations menv options of
        Inl e \<Rightarrow> Inl e
      | Inr streams \<Rightarrow> settle (completion_order arrival streams) [])"

text \<open>
  The contents as the specification words them: the matched files' contents one after
  the other, with no separator.
\<close>

definition spec_concatenation :: "src_file list \<Rightarrow> bytes" where
  "spec_concatenation files = concat (List.map_filter sf_contents files)"

text \<open>
  Globs for evaluation: each names one file under the base \<open>src\<close>, whose contents are its
  name up to the dot.
\<close>

definition example_files :: "jsstring list \<Rightarrow> src_file list" where
  "example_files globs =
     map (\<lambda>g. \<lparr>sf_base = js ''src'', sf_relative = g,
                sf_contents = Some (map ucast (takeWhile (\<lambda>c. c \<noteq> 0x2E) g)),
                sf_mtime = None\<rparr>) globs"

definition example_manual_env :: manual_env where
  "example_manual_env =
     \<lparr>gulp_src = (\<lambda>globs. if globs = [] then Inl (Error (js ''Invalid glob argument: ''))
                          else Inr (Inr (example_files globs))),
      m_path_join = join_slash\<rparr>"

section \<open>Properties of the terminal history contribution\<close>

lemma onCommandFinished_recorded:
  "recorded adds \<Longrightarrow> recorded (onCommandFinished command hasHistory shellType adds)"
  by (simp add: recorded_def onCommandFinished_def)

lemma onCommandFinished_funpow_recorded:
  "recorded adds \<Longrightarrow> recorded ((onCommandFinished command hasHistory shellType ^^ n) adds)"
  by (induction n) (simp_all add: onCommandFinished_recorded)

lemma step_recorded:
  "recorded (commandAdds s) \<Longrightarrow> recorded (commandAdds (step s e))"
  by (cases e) (simp_all add: onCommandFinished_funpow_recorded split: capability.splits)

lemma run_recorded:
  "recorded (commandAdds s) \<Longrightarrow> recorded (commandAdds (run s es))"
  by (induction es arbitrary: s) (simp_all add: step_recorded)

lemma onCommandFinished_blank:
  "trim command = [] \<Longrightarrow> onCommandFinished command hasHistory shellType adds = adds"
  by (simp add: onCommandFinished_def)

lemma step_blank:
  "trim command = [] \<Longrightarrow>
   commandAdds (step s (CommandFinished command hasHistory shellType)) = commandAdds s"
proof -
  assume blank: "trim command = []"
  have "(onCommandFinished command hasHistory shellType ^^ n) adds = adds" for n adds
    by (induction n) (simp_all add: onCommandFinished_blank [OF blank])
  then show ?thesis by simp
qed

text \<open>
  C10. Whatever sequence of events the contribution receives after its construction,
  every command it has added to the command history has positive length after trimming;
  and a finished command that trims to the empty string leaves the history as it was.
\<close>

theorem history_commands_nonblank:
  "(\<forall>c \<in> set (commandAdds (run initial_state (es :: 's terminal_event list))).
      length (trim (fst c)) > 0)
   \<and> (\<forall>(s :: 's history_state) command hasHistory shellType. trim command = [] \<longrightarrow>
        commandAdds (step s (CommandFinished command hasHistory shellType)) = commandAdds s)"
proof (intro conjI allI impI)
  have "recorded (commandAdds (run initial_state es))"
    by (rule run_recorded) (simp add: initial_state_def recorded_def)
  then show "\<forall>c \<in> set (commandAdds (run initial_state es)). length (trim (fst c)) > 0"
    by (simp add: recorded_def list_all_iff)
qed (rule step_blank)

theorem history_commands_nonblank_witness:
  "commandAdds (run initial_state
      [DidAddCapabilityType CommandDetection True,
       CommandFinished (js ''  '') True (0::nat),
       CommandFinished (js '' ls '') True 0]) = [(js '' ls '', 0)]
   \<and> length (trim (js '' ls '')) > 0
   \<and> trim (js ''  '') = []
   \<and> commandAdds (step \<lparr>commandListeners = 1, commandAdds = [(js ''ls'', 0::nat)]\<rparr>
         (CommandFinished (js ''  '') True 0)) = [(js ''ls'', 0)]"
proof -
  let ?es = "[DidAddCapabilityType CommandDetection True,
       CommandFinished (js ''  '') True (0::nat),
       CommandFinished (js '' ls '') True 0]"
  let ?s = "\<lparr>commandListeners = 1, commandAdds = [(js ''ls'', 0::nat)]\<rparr>"
  note main = history_commands_nonblank [of ?es]
  have run: "commandAdds (run initial_state ?es) = [(js '' ls '', 0)]"
    by (simp add: initial_state_def onCommandFinished_def trim_def is_white_space_def js_def)
  have blank: "trim (js ''  '') = []"
    by (simp add: trim_def is_white_space_def js_def)
  from main have "\<forall>c \<in> set (commandAdds (run initial_state ?es)). length (trim (fst c)) > 0"
    by (rule conjunct1)
  with run have pos: "length (trim (js '' ls '')) > 0"
    by simp
  from main [THEN conjunct2, rule_format, OF blank]
  have "commandAdds (step ?s (CommandFinished (js ''  '') True 0)) = commandAdds ?s" .
  also have "commandAdds ?s = [(js ''ls'', 0)]"
    by simp
  finally have kept: "commandAdds (step ?s (CommandFinished (js ''  '') True 0)) = [(js ''ls'', 0)]" .
  from run pos blank kept show ?thesis
    by (intro conjI)
qed

section \<open>Properties of the bundling task\<close>

subsection \<open>Mentioned modules\<close>

lemma fold_insert_eq: "fold insert l S = set l \<union> S"
  by (induction l arbitrary: S) auto

lemma forEach_add_eq: "forEach_add xs S = listed xs \<union> S"
  by (simp add: forEach_add_def listed_def fold_insert_eq split: option.splits)

lemma mention_eq:
  "mention ep S = {ep_name ep} \<union> listed (ep_include ep) \<union> listed (ep_exclude ep) \<union> S"
  by (auto simp: mention_def forEach_add_eq)

lemma fold_mention_eq:
  "fold mention eps S =
     (\<Union>ep \<in> set eps. {ep_name ep} \<union> listed (ep_include ep) \<union> listed (ep_exclude ep)) \<union> S"
proof (induction eps arbitrary: S)
  case Nil
  show ?case by simp
next
  case (Cons ep eps)
  have "fold mention (ep # eps) S = fold mention eps (mention ep S)"
    by simp
  also have "\<dots> = (\<Union>ep \<in> set eps. {ep_name ep} \<union> listed (ep_include ep) \<union> listed (ep_exclude ep))
      \<union> mention ep S"
    by (rule Cons.IH)
  also have "\<dots> = (\<Union>ep \<in> set (ep # eps).
      {ep_name ep} \<union> listed (ep_include ep) \<union> listed (ep_exclude ep)) \<union> S"
    by (auto simp: mention_eq)
  finally show ?case .
qed

text \<open>
  C5. The set of mentioned modules is the set of all module-ids that are the name of an
  entry point or stand in its include or exclude list, without \<open>vs/css\<close>.
\<close>

theorem allMentionedModules_eq:
  "allMentionedModules entryPoints =
     (\<Union>ep \<in> set entryPoints.
        {ep_name ep} \<union> listed (ep_include ep) \<union> listed (ep_exclude ep)) - {js ''vs/css''}"
  by (simp add: allMentionedModules_def fold_mention_eq)

subsection \<open>The banner\<close>

lemma prepend_loop_ok:
  "those (map (\<lambda>item. readFile env (path_join env [REPO_ROOT_PATH env, src, item])) items)
     = Some sources \<Longrightarrow>
   prepend_loop env src items bjs log =
     (log @ map (\<lambda>item. path_join env [REPO_ROOT_PATH env, src, item]) items,
      Inr (bjs @ concat (map (\<lambda>s. s @ [0xA]) sources)))"
proof (induction items arbitrary: bjs log sources)
  case Nil
  then show ?case by simp
next
  case (Cons item items)
  then show ?case
    by (auto simp: Let_def split: option.splits)
qed

text \<open>
  C3 (amended). When the reads succeed, one entry point reads the shim once and then each of its
  prepend files in order; the script banner is the copyright header, the shim, and the
  contents of each prepend file in order, each followed by a line feed; the style banner
  is the header alone. The build receives this banner, except for the entry point
  \<open>vs/workbench/workbench.web.main\<close>, which receives none.
\<close>

theorem banner_amended:
  assumes "readFile env (tslibPath env) = Some tslib"
    and "those (map (\<lambda>item. readFile env (path_join env [REPO_ROOT_PATH env, src, item]))
           (prepend_items entryPoint)) = Some sources"
    and "b = \<lparr>banner_js = DEFAULT_FILE_HEADER @ tslib @ concat (map (\<lambda>s. s @ [0xA]) sources),
              banner_css = DEFAULT_FILE_HEADER\<rparr>"
  shows "make_banner env src entryPoint =
           (tslibPath env #
              map (\<lambda>item. path_join env [REPO_ROOT_PATH env, src, item]) (prepend_items entryPoint),
            Inr b)
         \<and> bo_banner (build_options_of env src entryPoint b) =
             (if ep_name entryPoint = js ''vs/workbench/workbench.web.main'' then None else Some b)"
proof (cases "ep_prepend entryPoint")
  case None
  with assms show ?thesis
    by (auto simp: make_banner_def prepend_items_def build_options_of_def passed_banner_def)
next
  case (Some items)
  with assms(2) have "those (map (\<lambda>item. readFile env (path_join env [REPO_ROOT_PATH env, src, item]))
           items) = Some sources"
    by (simp add: prepend_items_def)
  note loop = prepend_loop_ok [OF this]
  show ?thesis
  proof (cases "items = []")
    case True
    with Some assms show ?thesis
      by (auto simp: make_banner_def prepend_items_def build_options_of_def passed_banner_def)
  next
    case False
    with Some assms(1,3) show ?thesis
      by (simp add: make_banner_def prepend_items_def build_options_of_def passed_banner_def loop)
  qed
qed

text \<open>
  C3 as stated fails: with one prepend file holding \<open>x\<close>, the script banner ends with a
  line feed after \<open>x\<close>, so it is not the header, the shim and the verbatim contents alone.
\<close>

theorem banner_counterexample:
  "snd (make_banner example_env (js ''out'') (example_entry (js ''a'') (Some [js ''p.js''])))
     = Inr \<lparr>banner_js = DEFAULT_FILE_HEADER @ js ''T'' @ js ''x'' @ [0xA],
            banner_css = DEFAULT_FILE_HEADER\<rparr>
   \<and> DEFAULT_FILE_HEADER @ js ''T'' @ js ''x'' @ [0xA]
       \<noteq> spec_banner_js (js ''T'') [js ''x'']"
proof
  show "snd (make_banner example_env (js ''out'') (example_entry (js ''a'') (Some [js ''p.js''])))
     = Inr \<lparr>banner_js = DEFAULT_FILE_HEADER @ js ''T'' @ js ''x'' @ [0xA],
            banner_css = DEFAULT_FILE_HEADER\<rparr>"
    by (simp add: make_banner_def example_env_def example_entry_def js_def)
  show "DEFAULT_FILE_HEADER @ js ''T'' @ js ''x'' @ [0xA]
       \<noteq> spec_banner_js (js ''T'') [js ''x'']"
    by (simp add: spec_banner_js_def)
qed

theorem banner_amended_witness:
  "make_banner example_env (js ''out'') (example_entry (js ''a'') (Some [js ''p.js''])) =
     ([js ''tslib.es6.js'', js ''root/out/p.js''],
      Inr \<lparr>banner_js = DEFAULT_FILE_HEADER @ js ''T'' @ js ''x'' @ [0xA],
           banner_css = DEFAULT_FILE_HEADER\<rparr>)
   \<and> bo_banner (build_options_of example_env (js ''out'')
        (example_entry (js ''a'') (Some [js ''p.js'']))
        \<lparr>banner_js = DEFAULT_FILE_HEADER @ js ''T'' @ js ''x'' @ [0xA],
         banner_css = DEFAULT_FILE_HEADER\<rparr>) =
      Some \<lparr>banner_js = DEFAULT_FILE_HEADER @ js ''T'' @ js ''x'' @ [0xA],
            banner_css = DEFAULT_FILE_HEADER\<rparr>"
proof -
  let ?ep = "example_entry (js ''a'') (Some [js ''p.js''])"
  let ?b = "\<lparr>banner_js = DEFAULT_FILE_HEADER @ js ''T'' @ js ''x'' @ [0xA],
           banner_css = DEFAULT_FILE_HEADER\<rparr>"
  have 1: "readFile example_env (tslibPath example_env) = Some (js ''T'')"
    by (simp add: example_env_def)
  have 2: "those (map (\<lambda>item. readFile example_env
              (path_join example_env [REPO_ROOT_PATH example_env, js ''out'', item]))
           (prepend_items ?ep)) = Some [js ''x'']"
    by (simp add: example_env_def example_entry_def prepend_items_def js_def)
  have 3: "?b = \<lparr>banner_js = DEFAULT_FILE_HEADER @ js ''T'' @ concat (map (\<lambda>s. s @ [0xA]) [js ''x'']),
              banner_css = DEFAULT_FILE_HEADER\<rparr>"
    by simp
  have paths: "tslibPath example_env #
      map (\<lambda>item. path_join example_env [REPO_ROOT_PATH example_env, js ''out'', item])
        (prepend_items ?ep) = [js ''tslib.es6.js'', js ''root/out/p.js'']"
    by (simp add: example_env_def example_entry_def prepend_items_def js_def)
  have name: "ep_name ?ep \<noteq> js ''vs/workbench/workbench.web.main''"
    by (simp add: example_entry_def js_def)
  from banner_amended [OF 1 2 3] paths name show ?thesis
    by simp
qed

subsection \<open>The content mapper\<close>

lemma mapper_loop_eq:
  "mapper_loop m t inputs calls =
     (foldl m t inputs,
      calls @ map (\<lambda>i. (foldl m t (take i inputs), inputs ! i)) [0..<length inputs])"
proof (induction inputs arbitrary: t calls)
  case Nil
  show ?case by simp
next
  case (Cons a inputs)
  have "map (\<lambda>i. (foldl m t (take i (a # inputs)), (a # inputs) ! i)) [0..<length (a # inputs)]
      = (t, a) # map (\<lambda>i. (foldl m (m t a) (take i inputs), inputs ! i)) [0..<length inputs]"
    by (simp add: map_upt_Suc del: upt_Suc)
  then show ?case
    by (simp add: Cons.IH del: upt_Suc)
qed

lemma new_contents_fold:
  "endsWith (of_path file) (js ''.js'') \<Longrightarrow>
   new_contents env (Some m) res file =
     Buffer_from env (foldl m (of_text file) (metafile_inputs res))"
  by (simp add: new_contents_def mapper_loop_eq)

lemma vinyl_of_cases:
  "(case vinyl_of env src mapper res outfile of
      Inr v \<Rightarrow> contents v = new_contents env mapper res outfile \<and> path v = of_path outfile
    | Inl e \<Rightarrow> e = SyntaxError \<and>
        (\<exists>sm. sourceMapFile_of res outfile = Some sm \<and> JSON_parse env (of_text sm) = None))"
  by (simp add: vinyl_of_def split: option.splits)

text \<open>
  C1. For an output file whose path ends in \<open>.js\<close> and a supplied mapper, the loop calls
  the mapper once per input path, in order, each time with the text accumulated so far,
  and returns the left fold of the mapper over the input paths from the bundled text; the
  file pushed has the bytes of that fold as its contents (unless \<open>JSON.parse\<close> of its
  source map throws).
\<close>

theorem fileContentMapper_fold:
  "endsWith (of_path file) (js ''.js'') \<Longrightarrow>
   mapper_loop m (of_text file) (metafile_inputs res) [] =
     (foldl m (of_text file) (metafile_inputs res),
      map (\<lambda>i. (foldl m (of_text file) (take i (metafile_inputs res)), metafile_inputs res ! i))
        [0..<length (metafile_inputs res)])
   \<and> (case vinyl_of env src (Some m) res file of
        Inr v \<Rightarrow> contents v = Buffer_from env (foldl m (of_text file) (metafile_inputs res))
      | Inl e \<Rightarrow> e = SyntaxError \<and>
          (\<exists>sm. sourceMapFile_of res file = Some sm \<and> JSON_parse env (of_text sm) = None))"
proof
  assume jsfile: "endsWith (of_path file) (js ''.js'')"
  show "mapper_loop m (of_text file) (metafile_inputs res) [] =
     (foldl m (of_text file) (metafile_inputs res),
      map (\<lambda>i. (foldl m (of_text file) (take i (metafile_inputs res)), metafile_inputs res ! i))
        [0..<length (metafile_inputs res)])"
    by (simp add: mapper_loop_eq)
  show "case vinyl_of env src (Some m) res file of
        Inr v \<Rightarrow> contents v = Buffer_from env (foldl m (of_text file) (metafile_inputs res))
      | Inl e \<Rightarrow> e = SyntaxError \<and>
          (\<exists>sm. sourceMapFile_of res file = Some sm \<and> JSON_parse env (of_text sm) = None)"
    using vinyl_of_cases [where env = env and src = src and mapper = "Some m" and res = res and outfile = "file"]
    by (simp add: new_contents_fold [OF jsfile] split: sum.splits)
qed

theorem fileContentMapper_fold_witness:
  "endsWith (js ''a.js'') (js ''.js'')
   \<and> vinyl_of example_env (js ''out'') (Some (\<lambda>contents p. contents @ p))
        \<lparr>outputFiles = [\<lparr>of_path = js ''a.js'', of_contents = [0x61], of_text = js ''a''\<rparr>],
         metafile_inputs = [js ''1'', js ''2'']\<rparr>
        \<lparr>of_path = js ''a.js'', of_contents = [0x61], of_text = js ''a''\<rparr>
      = Inr \<lparr>contents = [0x61, 0x31, 0x32], sourceMap = None, path = js ''a.js'',
             base = js ''root/out''\<rparr>
   \<and> Buffer_from example_env (foldl (\<lambda>contents p. contents @ p) (js ''a'') [js ''1'', js ''2''])
      = [0x61, 0x31, 0x32]"
proof -
  let ?file = "\<lparr>of_path = js ''a.js'', of_contents = [0x61], of_text = js ''a''\<rparr>"
  let ?res = "\<lparr>outputFiles = [?file], metafile_inputs = [js ''1'', js ''2'']\<rparr>"
  let ?m = "\<lambda>contents p :: jsstring. contents @ p"
  have jsfile: "endsWith (of_path ?file) (js ''.js'')"
    by (simp add: endsWith_def js_def)
  have run: "vinyl_of example_env (js ''out'') (Some ?m) ?res ?file
      = Inr \<lparr>contents = [0x61, 0x31, 0x32], sourceMap = None, path = js ''a.js'',
             base = js ''root/out''\<rparr>"
    by (simp add: vinyl_of_def sourceMapFile_of_def new_contents_def endsWith_def
        example_env_def js_def)
  have "case vinyl_of example_env (js ''out'') (Some ?m) ?res ?file of
        Inr v \<Rightarrow> contents v = Buffer_from example_env (foldl ?m (of_text ?file) (metafile_inputs ?res))
      | Inl e \<Rightarrow> e = SyntaxError \<and>
          (\<exists>sm. sourceMapFile_of ?res ?file = Some sm \<and> JSON_parse example_env (of_text sm) = None)"
    using fileContentMapper_fold [OF jsfile, where m = ?m and res = ?res and env = example_env and src = "js ''out''"]
    by (rule conjunct2)
  with run have "Buffer_from example_env (foldl ?m (js ''a'') [js ''1'', js ''2''])
      = [0x61, 0x31, 0x32]"
    by simp
  with jsfile run show ?thesis
    by simp
qed

subsection \<open>The join of the build tasks\<close>

lemma set_completion_order: "set (completion_order ks ts) = set ts"
proof (induction ks ts rule: completion_order.induct)
  case (3 k ks t ts)
  let ?l = "t # ts"
  let ?i = "k mod length ?l"
  have i: "?i < length ?l" by simp
  have "set ?l = set (take ?i ?l @ ?l ! ?i # drop (Suc ?i) ?l)"
    using id_take_nth_drop [OF i] by simp
  then have "set ?l = insert (?l ! ?i) (set (take ?i ?l @ drop (Suc ?i) ?l))"
    by auto
  moreover have "set (completion_order (k # ks) ?l)
      = insert (?l ! ?i) (set (completion_order ks (take ?i ?l @ drop (Suc ?i) ?l)))"
    by (simp add: Let_def)
  ultimately show ?case
    using "3.IH" [OF refl] by simp
qed simp_all

lemma completion_order_step:
  "l \<noteq> [] \<Longrightarrow>
   completion_order (k # ks) l =
     l ! (k mod length l) #
     completion_order ks (take (k mod length l) l @ drop (Suc (k mod length l)) l)"
  by (cases l) (simp_all add: Let_def)

lemma completion_order_map:
  "completion_order ks (map g ts) = map g (completion_order ks ts)"
proof (induction ks ts rule: completion_order.induct)
  case (3 k ks t ts)
  let ?l = "t # ts"
  let ?i = "k mod length ?l"
  have i: "?i < length ?l" by simp
  have "completion_order (k # ks) (map g ?l) =
      map g ?l ! ?i # completion_order ks (take ?i (map g ?l) @ drop (Suc ?i) (map g ?l))"
    using completion_order_step [of "map g ?l" k ks] by simp
  also have "take ?i (map g ?l) @ drop (Suc ?i) (map g ?l) =
      map g (take ?i ?l @ drop (Suc ?i) ?l)"
    by (simp only: take_map drop_map map_append)
  also have "map g ?l ! ?i = g (?l ! ?i)"
    using i by (rule nth_map)
  also have "completion_order ks (map g (take ?i ?l @ drop (Suc ?i) ?l)) =
      map g (completion_order ks (take ?i ?l @ drop (Suc ?i) ?l))"
    by (rule "3.IH" [OF refl])
  finally have "completion_order (k # ks) (map g ?l) =
      map g (?l ! ?i # completion_order ks (take ?i ?l @ drop (Suc ?i) ?l))"
    by simp
  also have "?l ! ?i # completion_order ks (take ?i ?l @ drop (Suc ?i) ?l) =
      completion_order (k # ks) ?l"
    using completion_order_step [of ?l k ks] by simp
  finally show ?case .
qed simp_all

lemma settle_fails: "\<exists>t \<in> set tasks. isl t \<Longrightarrow> isl (settle tasks files)"
  by (induction tasks files rule: settle.induct) auto

lemma settle_succeeds:
  "\<forall>t \<in> set tasks. \<not> isl t \<Longrightarrow> settle tasks files = Inr (files @ concat (map projr tasks))"
  by (induction tasks files rule: settle.induct) auto

lemma launch_ok:
  "\<forall>ep \<in> set eps. \<not> isl (snd (make_banner env (opt_src opts) ep)) \<Longrightarrow>
   launch env opts eps = Inr (map (entry_outcome env opts) eps)"
  by (induction eps) (auto simp: entry_outcome_def split: sum.splits)

lemma launch_Inr_banners:
  "launch env opts eps = Inr tasks \<Longrightarrow>
   \<forall>ep \<in> set eps. \<not> isl (snd (make_banner env (opt_src opts) ep))"
  by (induction eps arbitrary: tasks) (auto split: sum.splits)

lemma launch_fails:
  "\<exists>ep \<in> set eps. isl (snd (make_banner env (opt_src opts) ep)) \<Longrightarrow>
   isl (launch env opts eps)"
  using launch_Inr_banners [of env opts eps] by (cases "launch env opts eps") auto

lemma entry_outcome_banner:
  "isl (snd (make_banner env (opt_src opts) ep)) \<Longrightarrow> isl (entry_outcome env opts ep)"
  by (auto simp: entry_outcome_def split: sum.splits)

text \<open>
  C4. Under every schedule, \<open>bundleAsync\<close> rejects as soon as one entry point fails,
  and it returns the collected files only when every entry point succeeds: then the files
  of all tasks, in the order the tasks completed.
\<close>

theorem bundleAsync_all_or_nothing:
  "((\<exists>ep \<in> set eps. isl (entry_outcome env opts ep)) \<longrightarrow>
      isl (bundleAsync env opts eps schedule))
   \<and> ((\<forall>ep \<in> set eps. \<not> isl (entry_outcome env opts ep)) \<longrightarrow>
      bundleAsync env opts eps schedule =
        Inr (concat (map projr (completion_order schedule (map (entry_outcome env opts) eps)))))"
proof (intro conjI impI)
  assume bad: "\<exists>ep \<in> set eps. isl (entry_outcome env opts ep)"
  show "isl (bundleAsync env opts eps schedule)"
  proof (cases "\<exists>ep \<in> set eps. isl (snd (make_banner env (opt_src opts) ep))")
    case True
    then have "isl (launch env opts eps)"
      by (rule launch_fails)
    then show ?thesis
      by (auto simp: bundleAsync_def split: sum.splits)
  next
    case False
    then have l: "launch env opts eps = Inr (map (entry_outcome env opts) eps)"
      by (intro launch_ok) simp
    from bad have "\<exists>t \<in> set (completion_order schedule (map (entry_outcome env opts) eps)). isl t"
      by (simp add: set_completion_order)
    then have "isl (settle (completion_order schedule (map (entry_outcome env opts) eps)) [])"
      by (rule settle_fails)
    with l show ?thesis
      by (simp add: bundleAsync_def)
  qed
next
  assume good: "\<forall>ep \<in> set eps. \<not> isl (entry_outcome env opts ep)"
  then have "\<forall>ep \<in> set eps. \<not> isl (snd (make_banner env (opt_src opts) ep))"
    using entry_outcome_banner by blast
  then have l: "launch env opts eps = Inr (map (entry_outcome env opts) eps)"
    by (rule launch_ok)
  from good have "\<forall>t \<in> set (completion_order schedule (map (entry_outcome env opts) eps)). \<not> isl t"
    by (simp add: set_completion_order)
  then have "settle (completion_order schedule (map (entry_outcome env opts) eps)) []
      = Inr ([] @ concat (map projr (completion_order schedule (map (entry_outcome env opts) eps))))"
    by (rule settle_succeeds)
  with l show "bundleAsync env opts eps schedule =
        Inr (concat (map projr (completion_order schedule (map (entry_outcome env opts) eps))))"
    by (simp add: bundleAsync_def)
qed

lemma example_outcome_a:
  "entry_outcome example_env example_opts (example_entry (js ''a'') None) =
     Inr [\<lparr>contents = [0x61, 0x31, 0x32], sourceMap = None, path = js ''a.js'',
           base = js ''root/out''\<rparr>]"
  by (simp add: entry_outcome_def make_banner_def build_task_def build_options_of_def
      dest_of_def passed_banner_def vinyl_of_def sourceMapFile_of_def new_contents_def
      endsWith_def example_env_def example_opts_def example_entry_def js_def)

lemma example_outcome_b:
  "entry_outcome example_env example_opts (example_entry (js ''b'') None) =
     Inl (BuildError (js ''b''))"
  by (simp add: entry_outcome_def make_banner_def build_task_def build_options_of_def
      dest_of_def passed_banner_def example_env_def example_opts_def example_entry_def js_def)

theorem bundleAsync_all_or_nothing_witness:
  "isl (entry_outcome example_env example_opts (example_entry (js ''b'') None))
   \<and> isl (bundleAsync example_env example_opts
        [example_entry (js ''a'') None, example_entry (js ''b'') None] [1])
   \<and> \<not> isl (entry_outcome example_env example_opts (example_entry (js ''a'') None))
   \<and> bundleAsync example_env example_opts
        [example_entry (js ''a'') None, example_entry (js ''a'') None] [1] =
      Inr [\<lparr>contents = [0x61, 0x31, 0x32], sourceMap = None, path = js ''a.js'',
            base = js ''root/out''\<rparr>,
           \<lparr>contents = [0x61, 0x31, 0x32], sourceMap = None, path = js ''a.js'',
            base = js ''root/out''\<rparr>]"
proof -
  let ?a = "example_entry (js ''a'') None"
  let ?b = "example_entry (js ''b'') None"
  have b: "isl (entry_outcome example_env example_opts ?b)"
    by (simp add: example_outcome_b)
  have a: "\<not> isl (entry_outcome example_env example_opts ?a)"
    by (simp add: example_outcome_a)
  from b have "\<exists>ep \<in> set [?a, ?b]. isl (entry_outcome example_env example_opts ep)"
    by simp
  with bundleAsync_all_or_nothing [where eps = "[?a, ?b]" and env = example_env and opts = example_opts and schedule = "[1]"]
  have fails: "isl (bundleAsync example_env example_opts [?a, ?b] [1])"
    by blast
  from a have "\<forall>ep \<in> set [?a, ?a]. \<not> isl (entry_outcome example_env example_opts ep)"
    by simp
  with bundleAsync_all_or_nothing [where eps = "[?a, ?a]" and env = example_env and opts = example_opts and schedule = "[1]"]
  have "bundleAsync example_env example_opts [?a, ?a] [1] =
      Inr (concat (map projr (completion_order [1]
        (map (entry_outcome example_env example_opts) [?a, ?a]))))"
    by blast
  then have ok: "bundleAsync example_env example_opts [?a, ?a] [1] =
      Inr [\<lparr>contents = [0x61, 0x31, 0x32], sourceMap = None, path = js ''a.js'',
            base = js ''root/out''\<rparr>,
           \<lparr>contents = [0x61, 0x31, 0x32], sourceMap = None, path = js ''a.js'',
            base = js ''root/out''\<rparr>]"
    by (simp add: example_outcome_a Let_def)
  from b fails a ok show ?thesis
    by (intro conjI)
qed

subsection \<open>The localization stage\<close>

text \<open>
  C6. When \<open>opts.languages\<close> is absent or empty, the last stage of the pipe re-emits its
  input, and the task emits the same files as the task without the localization stage.
\<close>

theorem no_languages_identity:
  "opt_languages opts = None \<or> opt_languages opts = Some [] \<Longrightarrow>
   nls_stage senv opts stream = stream
   \<and> optimizeESMTask env senv opts cjs schedule resources =
       optimizeESMTask_without_nls env senv opts cjs schedule resources"
  by (auto simp: nls_stage_def through_def optimizeESMTask_def optimizeESMTask_without_nls_def
      split: sum.splits)

theorem no_languages_identity_witness:
  "opt_languages example_opts = Some []
   \<and> processNlsFiles example_stream_env
        \<lparr>nls_out = js ''out'', nls_fileHeader = DEFAULT_FILE_HEADER, nls_languages = [0]\<rparr>
        [\<lparr>contents = [0x61], sourceMap = None, path = js ''a.js'', base = js ''root/out''\<rparr>] = []
   \<and> nls_stage example_stream_env example_opts
        [\<lparr>contents = [0x61], sourceMap = None, path = js ''a.js'', base = js ''root/out''\<rparr>]
      = [\<lparr>contents = [0x61], sourceMap = None, path = js ''a.js'', base = js ''root/out''\<rparr>]
   \<and> optimizeESMTask example_env example_stream_env example_opts None [] [] =
       optimizeESMTask_without_nls example_env example_stream_env example_opts None [] []"
proof -
  have langs: "opt_languages example_opts = Some []"
    by (simp add: example_opts_def)
  then have hyp: "opt_languages example_opts = None \<or> opt_languages example_opts = Some []"
    by simp
  have nls: "processNlsFiles example_stream_env
        \<lparr>nls_out = js ''out'', nls_fileHeader = DEFAULT_FILE_HEADER, nls_languages = [0]\<rparr>
        [\<lparr>contents = [0x61], sourceMap = None, path = js ''a.js'', base = js ''root/out''\<rparr>] = []"
    by (simp add: example_stream_env_def)
  from langs nls
    no_languages_identity [OF hyp, where senv = example_stream_env and env = example_env
      and cjs = None and schedule = "[]" and resources = "[]"
      and stream = "[\<lparr>contents = [0x61], sourceMap = None, path = js ''a.js'',
        base = js ''root/out''\<rparr>]"]
  show ?thesis
    by (intro conjI) simp_all
qed

section \<open>Properties of the minify task\<close>

lemma match_runs_eq:
  "match_runs cur s =
     (if cur @ takeWhile (\<lambda>c. c > 0xFF) s = [] then []
      else [cur @ takeWhile (\<lambda>c. c > 0xFF) s]) @
     match_runs [] (dropWhile (\<lambda>c. c > 0xFF) s)"
  by (induction s arbitrary: cur) auto


lemma match_runs_skip:
  "match_runs [] s = match_runs [] (dropWhile (\<lambda>c. c \<le> 0xFF) s)"
  by (induction s) (auto simp: not_less [symmetric])


lemma offending_nonempty: "\<exists>c \<in> set s. c > 0xFF \<Longrightarrow> offending s \<noteq> []"
proof -
  assume "\<exists>c \<in> set s. c > 0xFF"
  then have "dropWhile (\<lambda>c. c \<le> 0xFF) s \<noteq> []"
    by (auto simp: dropWhile_eq_Nil_conv not_le)
  then obtain c cs where d: "dropWhile (\<lambda>c. c \<le> 0xFF) s = c # cs"
    by (cases "dropWhile (\<lambda>c. c \<le> 0xFF) s") auto
  then have "\<not> c \<le> 0xFF"
    using hd_dropWhile [of "\<lambda>c. c \<le> 0xFF" s] by auto
  with d show ?thesis
    by (simp add: offending_def)
qed

lemma unicode_match_Some:
  "\<exists>c \<in> set s. c > 0xFF \<Longrightarrow> \<exists>ms. unicode_match s = Some (offending s # ms)"
proof -
  assume bad: "\<exists>c \<in> set s. c > 0xFF"
  have "match_runs [] s = match_runs [] (dropWhile (\<lambda>c. c \<le> 0xFF) s)"
    by (rule match_runs_skip)
  also have "\<dots> = [offending s] @
      match_runs [] (dropWhile (\<lambda>c. c > 0xFF) (dropWhile (\<lambda>c. c \<le> 0xFF) s))"
    using offending_nonempty [OF bad]
    by (subst match_runs_eq) (simp add: offending_def)
  finally show ?thesis
    by (simp add: unicode_match_def)
qed



lemma minify_js_rejected:
  assumes "m_esbuild_build env (path f) = Inr outs"
    and "find (\<lambda>f. endsWith (of_path f) (js ''.js'')) outs = Some jsFile"
    and "\<exists>c \<in> set (m_toString env (of_contents jsFile)). c > 0xFF"
  shows "minify_js env f =
     (f, Errored (Error (non_ascii_message
        (offending (m_toString env (of_contents jsFile))) (path f))))"
proof -
  from unicode_match_Some [OF assms(3)] obtain ms where
    "unicode_match (m_toString env (of_contents jsFile)) =
       Some (offending (m_toString env (of_contents jsFile)) # ms)" ..
  with assms(1,2) show ?thesis
    by (simp add: minify_js_def Let_def)
qed












lemma example_minify_u:
  "minify_js example_minify_env (example_script (js ''u.js'')) =
     (example_script (js ''u.js''),
      Errored (Error (non_ascii_message [0x65E5] (js ''u.js''))))"
  by (simp add: minify_js_def example_minify_env_def example_script_def endsWith_def
      unicode_match_def js_def Let_def)

lemma example_minify_b:
  "minify_js example_minify_env (example_script (js ''b.js'')) =
     (example_script (js ''b.js'')\<lparr>contents := [0x61], sourceMap := Some (js ''{}'')\<rparr>,
      Emitted (example_script (js ''b.js'')\<lparr>contents := [0x61], sourceMap := Some (js ''{}'')\<rparr>))"
  by (simp add: minify_js_def example_minify_env_def example_script_def endsWith_def
      unicode_match_def js_def Let_def)




text \<open>
  C9 (amended). When the check for code units above \<open>0xFF\<close> fails, the callback leaves
  the file record as it was, with the contents and the source map it had before, and
  calls \<open>cb\<close> with the error alone: no file is passed to it.
\<close>

theorem minify_error_leaves_file:
  assumes "m_esbuild_build env (path f) = Inr outs"
    and "find (\<lambda>f. endsWith (of_path f) (js ''.js'')) outs = Some jsFile"
    and "\<exists>c \<in> set (m_toString env (of_contents jsFile)). c > 0xFF"
  shows "fst (minify_js env f) = f
     \<and> contents (fst (minify_js env f)) = contents f
     \<and> sourceMap (fst (minify_js env f)) = sourceMap f
     \<and> snd (minify_js env f) =
         Errored (Error (non_ascii_message
           (offending (m_toString env (of_contents jsFile))) (path f)))
     \<and> cb_data (snd (minify_js env f)) = None"
  by (simp add: minify_js_rejected [OF assms] cb_data_def)

text \<open>
  C9 as stated fails: for the script \<open>u.js\<close>, whose minified text is the character U+65E5,
  \<open>cb\<close> is called with the error and without the file record.
\<close>

theorem minify_error_callback_counterexample:
  "snd (minify_js example_minify_env (example_script (js ''u.js''))) =
     Errored (Error (non_ascii_message [0x65E5] (js ''u.js'')))
   \<and> cb_data (snd (minify_js example_minify_env (example_script (js ''u.js''))))
       \<noteq> Some (example_script (js ''u.js''))"
  by (simp add: example_minify_u cb_data_def)

theorem minify_error_leaves_file_witness:
  "fst (minify_js example_minify_env (example_script (js ''u.js''))) =
     \<lparr>contents = [0x62], sourceMap = Some (js ''old''), path = js ''u.js'', base = js ''out''\<rparr>
   \<and> snd (minify_js example_minify_env (example_script (js ''u.js''))) =
      Errored (Error (non_ascii_message [0x65E5] (js ''u.js'')))
   \<and> cb_data (snd (minify_js example_minify_env (example_script (js ''u.js'')))) = None"
proof -
  let ?env = example_minify_env
  let ?u = "example_script (js ''u.js'')"
  let ?map = "\<lparr>of_path = js ''a.js.map'', of_contents = [0x7B, 0x7D], of_text = js ''{}''\<rparr>"
  let ?ju = "\<lparr>of_path = js ''a.js'', of_contents = [0xE6, 0x97, 0xA5], of_text = [0x65E5]\<rparr>"
  have u1: "m_esbuild_build ?env (path ?u) = Inr [?ju, ?map]"
    by (simp add: example_minify_env_def example_script_def)
  have u2: "find (\<lambda>f. endsWith (of_path f) (js ''.js'')) [?ju, ?map] = Some ?ju"
    by (simp add: endsWith_def js_def)
  have u3: "\<exists>c \<in> set (m_toString ?env (of_contents ?ju)). c > 0xFF"
    by (simp add: example_minify_env_def)
  have decoded: "m_toString ?env [0xE6, 0x97, 0xA5] = [0x65E5]"
    by (simp add: example_minify_env_def)
  have off: "offending [0x65E5] = [0x65E5]"
    by (simp add: offending_def)
  from minify_error_leaves_file [OF u1 u2 u3]
  have "fst (minify_js ?env ?u) = ?u
     \<and> snd (minify_js ?env ?u) =
         Errored (Error (non_ascii_message
           (offending (m_toString ?env (of_contents ?ju))) (path ?u)))
     \<and> cb_data (snd (minify_js ?env ?u)) = None"
    by blast
  then show ?thesis
    by (simp add: decoded off example_script_def cb_data_def)
qed

section \<open>Properties of the manual task\<close>

lemma parts_more:
  "ps \<noteq> [] \<Longrightarrow> contentParts st = Some ps \<Longrightarrow>
   contentParts (bufferContents sep files st) =
     Some (ps @ concat (map (\<lambda>c. [sep, c]) (List.map_filter sf_contents files)))"
proof (induction files arbitrary: ps st)
  case Nil
  then show ?case by (simp add: map_filter_simps)
next
  case (Cons f files)
  show ?case
  proof (cases "sf_contents f")
    case None
    with Cons show ?thesis by (simp add: map_filter_simps)
  next
    case (Some content)
    let ?st = "\<lparr>latestFile = (if modified_later f (latestMod st) then Some f else latestFile st),
             latestMod = (if modified_later f (latestMod st) then sf_mtime f else latestMod st),
             contentParts = Some (ps @ [sep, content])\<rparr>"
    have "contentParts (bufferContents sep files ?st) =
        Some ((ps @ [sep, content]) @
          concat (map (\<lambda>c. [sep, c]) (List.map_filter sf_contents files)))"
      by (rule Cons.IH) simp_all
    with Some Cons.prems show ?thesis
      by (simp add: map_filter_simps concat_add_def)
  qed
qed

lemma parts_start:
  "contentParts st = None \<Longrightarrow>
   contentParts (bufferContents sep files st) =
     (case List.map_filter sf_contents files of
        [] \<Rightarrow> None
      | c # cs \<Rightarrow> Some (c # concat (map (\<lambda>c. [sep, c]) cs)))"
proof (induction files arbitrary: st)
  case Nil
  then show ?case by (simp add: map_filter_simps)
next
  case (Cons f files)
  show ?case
  proof (cases "sf_contents f")
    case None
    with Cons show ?thesis by (simp add: map_filter_simps)
  next
    case (Some content)
    let ?st = "\<lparr>latestFile = (if modified_later f (latestMod st) then Some f else latestFile st),
             latestMod = (if modified_later f (latestMod st) then sf_mtime f else latestMod st),
             contentParts = Some [content]\<rparr>"
    have "contentParts (bufferContents sep files ?st) =
        Some ([content] @ concat (map (\<lambda>c. [sep, c]) (List.map_filter sf_contents files)))"
      by (rule parts_more) simp_all
    with Some Cons.prems show ?thesis
      by (simp add: map_filter_simps concat_add_def)
  qed
qed

lemma concat_separated:
  "concat (concat (map (\<lambda>c. [sep, c]) cs)) = concat (map (\<lambda>c. sep @ c) cs)"
  by (induction cs) auto

lemma latest_kept:
  "latestFile st = Some l0 \<Longrightarrow>
   \<exists>l. latestFile (bufferContents sep files st) = Some l
     \<and> (l = l0 \<or> (l \<in> set files \<and> sf_contents l \<noteq> None))"
proof (induction files arbitrary: st l0)
  case Nil
  then show ?case by simp
next
  case (Cons f files)
  show ?case
  proof (cases "sf_contents f")
    case None
    with Cons.IH [OF Cons.prems] show ?thesis by auto
  next
    case (Some content)
    let ?st = "\<lparr>latestFile = (if modified_later f (latestMod st) then Some f else latestFile st),
             latestMod = (if modified_later f (latestMod st) then sf_mtime f else latestMod st),
             contentParts =
               Some (concat_add sep
                       (case contentParts st of None \<Rightarrow> [] | Some ps \<Rightarrow> ps) content)\<rparr>"
    have "latestFile ?st = Some f \<or> latestFile ?st = Some l0"
      using Cons.prems by simp
    then show ?thesis
    proof
      assume "latestFile ?st = Some f"
      from Cons.IH [OF this] Some show ?thesis by auto
    next
      assume "latestFile ?st = Some l0"
      from Cons.IH [OF this] Some show ?thesis by auto
    qed
  qed
qed

lemma latest_start:
  "latestFile st = None \<Longrightarrow> latestMod st = None \<Longrightarrow>
   List.map_filter sf_contents files \<noteq> [] \<Longrightarrow>
   \<exists>l \<in> set files. sf_contents l \<noteq> None
     \<and> latestFile (bufferContents sep files st) = Some l"
proof (induction files)
  case Nil
  then show ?case by (simp add: map_filter_simps)
next
  case (Cons f files)
  show ?case
  proof (cases "sf_contents f")
    case None
    with Cons show ?thesis by (auto simp: map_filter_simps)
  next
    case (Some content)
    let ?st = "\<lparr>latestFile = (if modified_later f (latestMod st) then Some f else latestFile st),
             latestMod = (if modified_later f (latestMod st) then sf_mtime f else latestMod st),
             contentParts =
               Some (concat_add sep
                       (case contentParts st of None \<Rightarrow> [] | Some ps \<Rightarrow> ps) content)\<rparr>"
    have "latestFile ?st = Some f"
      using Cons.prems(2) by (simp add: modified_later_def)
    from latest_kept [OF this, of sep files] Some show ?thesis by auto
  qed
qed

lemma gulp_concat_joined:
  "List.map_filter sf_contents files = c # cs \<Longrightarrow>
   \<exists>latest \<in> set files. sf_contents latest \<noteq> None \<and>
     gulp_concat menv fileName files =
       [\<lparr>jf_base = sf_base latest,
         jf_path = m_path_join menv [sf_base latest, fileName],
         jf_contents = c @ concat (map (\<lambda>x. 0xA # x) cs)\<rparr>]"
proof -
  assume matched: "List.map_filter sf_contents files = c # cs"
  let ?st0 = "\<lparr>latestFile = None, latestMod = None, contentParts = None\<rparr>"
  have "\<exists>l \<in> set files. sf_contents l \<noteq> None
      \<and> latestFile (bufferContents [0xA] files ?st0) = Some l"
    by (rule latest_start) (simp_all add: matched)
  then obtain latest where latest: "latest \<in> set files" "sf_contents latest \<noteq> None"
      "latestFile (bufferContents [0xA] files ?st0) = Some latest"
    by blast
  have "contentParts (bufferContents [0xA] files ?st0) =
      Some (c # concat (map (\<lambda>c. [[0xA], c]) cs))"
    using parts_start [of ?st0 "[0xA]" files] by (simp add: matched)
  with latest(3) have "gulp_concat menv fileName files =
      [\<lparr>jf_base = sf_base latest,
        jf_path = m_path_join menv [sf_base latest, fileName],
        jf_contents = c @ concat (map (\<lambda>x. 0xA # x) cs)\<rparr>]"
    by (simp add: gulp_concat_def endStream_def concat_separated)
  with latest(1,2) show ?thesis by blast
qed

lemma concatenations_ok:
  "\<forall>opt \<in> set options. \<not> isl (concatenation menv opt) \<Longrightarrow>
   concatenations menv options = Inr (map (\<lambda>opt. projr (concatenation menv opt)) options)"
  by (induction options) (auto split: sum.splits)

text \<open>
  C7 (amended). For a group with a non-empty \<open>out\<close> whose globs resolve to files of which
  at least one has contents, the stream of the group emits exactly one file: its path is
  \<open>out\<close> joined to the base of one of the matched files, and its contents are the
  contents of the first matched file followed by those of each further matched file in
  order, each preceded by one line feed. When every group emits one file, the task emits
  these files, in the order the streams deliver them.
\<close>

theorem manual_concat_amended:
  assumes "gulp_src menv (mo_src opt) = Inr (Inr files)"
    and "mo_out opt \<noteq> []"
    and "List.map_filter sf_contents files = c # cs"
  shows "(\<exists>latest \<in> set files. sf_contents latest \<noteq> None \<and>
            concatenation menv opt =
              Inr (Inr [\<lparr>jf_base = sf_base latest,
                         jf_path = m_path_join menv [sf_base latest, mo_out opt],
                         jf_contents = c @ concat (map (\<lambda>x. 0xA # x) cs)\<rparr>]))
     \<and> (\<forall>arrival options.
          (\<forall>group \<in> set options. \<exists>j. concatenation menv group = Inr (Inr [j])) \<longrightarrow>
          optimizeManualTask menv arrival options =
            Inr (concat (map (\<lambda>group. projr (projr (concatenation menv group)))
                           (completion_order arrival options))))"
proof (intro conjI allI impI)
  from gulp_concat_joined [OF assms(3), of menv "mo_out opt"] assms(1,2)
  show "\<exists>latest \<in> set files. sf_contents latest \<noteq> None \<and>
      concatenation menv opt =
        Inr (Inr [\<lparr>jf_base = sf_base latest,
                   jf_path = m_path_join menv [sf_base latest, mo_out opt],
                   jf_contents = c @ concat (map (\<lambda>x. 0xA # x) cs)\<rparr>])"
    by (simp add: concatenation_def)
next
  fix arrival options
  assume all: "\<forall>group \<in> set options. \<exists>j. concatenation menv group = Inr (Inr [j])"
  let ?stream = "\<lambda>group. projr (concatenation menv group)"
  from all have "\<forall>group \<in> set options. \<not> isl (concatenation menv group)"
    by auto
  then have streams: "concatenations menv options = Inr (map ?stream options)"
    by (rule concatenations_ok)
  from all have "\<forall>t \<in> set (completion_order arrival (map ?stream options)). \<not> isl t"
    by (auto simp: set_completion_order)
  then have "settle (completion_order arrival (map ?stream options)) [] =
      Inr ([] @ concat (map projr (completion_order arrival (map ?stream options))))"
    by (rule settle_succeeds)
  also have "map projr (completion_order arrival (map ?stream options)) =
      map (\<lambda>group. projr (projr (concatenation menv group))) (completion_order arrival options)"
    by (simp add: completion_order_map)
  finally show "optimizeManualTask menv arrival options =
      Inr (concat (map (\<lambda>group. projr (projr (concatenation menv group)))
                     (completion_order arrival options)))"
    by (simp add: optimizeManualTask_def streams)
qed

lemma example_concatenation:
  "concatenation example_manual_env \<lparr>mo_src = [js ''a.js'', js ''b.js''], mo_out = js ''c.js''\<rparr>
     = Inr (Inr [\<lparr>jf_base = js ''src'', jf_path = js ''src/c.js'',
                  jf_contents = [0x61, 0xA, 0x62]\<rparr>])"
  by (simp add: concatenation_def gulp_concat_def endStream_def concat_add_def
      modified_later_def example_manual_env_def example_files_def js_def)

text \<open>
  C7 as stated fails: for the files \<open>a.js\<close> and \<open>b.js\<close> holding \<open>a\<close> and \<open>b\<close>, the output
  holds \<open>a\<close>, a line feed and \<open>b\<close>, which is not the two contents with no separator.
\<close>

theorem manual_concat_counterexample:
  "concatenation example_manual_env \<lparr>mo_src = [js ''a.js'', js ''b.js''], mo_out = js ''c.js''\<rparr>
     = Inr (Inr [\<lparr>jf_base = js ''src'', jf_path = js ''src/c.js'',
                  jf_contents = [0x61, 0xA, 0x62]\<rparr>])
   \<and> spec_concatenation (example_files [js ''a.js'', js ''b.js'']) = [0x61, 0x62]
   \<and> [0x61, 0xA, 0x62] \<noteq> spec_concatenation (example_files [js ''a.js'', js ''b.js''])"
  by (simp add: example_concatenation)
    (simp add: spec_concatenation_def example_files_def map_filter_simps js_def)

theorem manual_concat_amended_witness:
  "concatenation example_manual_env \<lparr>mo_src = [js ''a.js'', js ''b.js''], mo_out = js ''c.js''\<rparr>
     = Inr (Inr [\<lparr>jf_base = js ''src'', jf_path = js ''src/c.js'',
                  jf_contents = [0x61, 0xA, 0x62]\<rparr>])
   \<and> optimizeManualTask example_manual_env [1]
        [\<lparr>mo_src = [js ''a.js'', js ''b.js''], mo_out = js ''c.js''\<rparr>,
         \<lparr>mo_src = [js ''a.js'', js ''b.js''], mo_out = js ''c.js''\<rparr>]
     = Inr [\<lparr>jf_base = js ''src'', jf_path = js ''src/c.js'', jf_contents = [0x61, 0xA, 0x62]\<rparr>,
            \<lparr>jf_base = js ''src'', jf_path = js ''src/c.js'', jf_contents = [0x61, 0xA, 0x62]\<rparr>]"
proof -
  let ?opt = "\<lparr>mo_src = [js ''a.js'', js ''b.js''], mo_out = js ''c.js''\<rparr>"
  let ?files = "example_files [js ''a.js'', js ''b.js'']"
  let ?j = "\<lparr>jf_base = js ''src'', jf_path = js ''src/c.js'', jf_contents = [0x61, 0xA, 0x62]\<rparr>"
  have 1: "gulp_src example_manual_env (mo_src ?opt) = Inr (Inr ?files)"
    by (simp add: example_manual_env_def)
  have 2: "mo_out ?opt \<noteq> []"
    by (simp add: js_def)
  have 3: "List.map_filter sf_contents ?files = [0x61] # [[0x62]]"
    by (simp add: example_files_def map_filter_simps js_def)
  have bases: "\<forall>f \<in> set ?files. sf_base f = js ''src''"
    by (simp add: example_files_def)
  have joined: "m_path_join example_manual_env [js ''src'', mo_out ?opt] = js ''src/c.js''"
    by (simp add: example_manual_env_def js_def)
  note main = manual_concat_amended [OF 1 2 3]
  from main obtain latest where "latest \<in> set ?files"
    and c: "concatenation example_manual_env ?opt =
      Inr (Inr [\<lparr>jf_base = sf_base latest,
                 jf_path = m_path_join example_manual_env [sf_base latest, mo_out ?opt],
                 jf_contents = [0x61] @ concat (map (\<lambda>x. 0xA # x) [[0x62]])\<rparr>])"
    by blast
  with bases have "sf_base latest = js ''src''"
    by blast
  with c joined have r1: "concatenation example_manual_env ?opt = Inr (Inr [?j])"
    by simp
  then have "\<forall>group \<in> set [?opt, ?opt]. \<exists>j. concatenation example_manual_env group = Inr (Inr [j])"
    by simp
  with main have "optimizeManualTask example_manual_env [1] [?opt, ?opt] =
      Inr (concat (map (\<lambda>group. projr (projr (concatenation example_manual_env group)))
                     (completion_order [1] [?opt, ?opt])))"
    by blast
  with r1 have r2: "optimizeManualTask example_manual_env [1] [?opt, ?opt] = Inr [?j, ?j]"
    by (simp add: Let_def)
  from r1 r2 show ?thesis
    by (intro conjI)
qed

end
